theory Spec2Isabelle
  imports Main "HOL-Library.Word" "HOL-Library.Char_ord" "HOL-Library.List_Lexorder"
begin

section \<open>The PVR settings cache (xbmc/pvr/PVRSettings.cpp)\<close>

text \<open>
  \<^verbatim>\<open>CPVRSettings\<close> keeps clones of a set of named settings in the member
  \<^verbatim>\<open>m_settings\<close> (a \<^verbatim>\<open>std::map\<close> from setting id to setting), refreshes them
  from the callbacks \<^verbatim>\<open>OnSettingsLoaded\<close> and \<^verbatim>\<open>OnSettingChanged\<close>, and answers
  typed queries. Two static callbacks, \<^verbatim>\<open>MarginTimeFiller\<close> and
  \<^verbatim>\<open>IsSettingVisible\<close>, serve the settings dialog.

  The embedding is sequential: every member function runs to its end before the next
  one starts, which is what the critical section \<^verbatim>\<open>m_critSection\<close> gives each
  locked block. The settings registry, the client manager, the string table and the
  formatter are not part of this file; they enter as parameters.
\<close>

subsection \<open>Settings\<close>

text \<open>
  Modelled from the spec: the setting value object (\<^verbatim>\<open>settings/lib/Setting.h\<close> is
  not among the sources). It is polymorphic over the kinds boolean, integer and string,
  and exposes its kind (\<^verbatim>\<open>GetType\<close>), its identifier (\<^verbatim>\<open>GetId\<close>), a copy under a
  given identifier (\<^verbatim>\<open>Clone\<close>) and a value of its kind (\<^verbatim>\<open>GetValue\<close>).
  The kind is a function of the class, so the class hierarchy is a datatype with one
  constructor for each class that this file casts to, each holding the identifier and
  the value, and one constructor for every other setting class.
\<close>

datatype SettingType = Boolean | Integer | String | OtherType

datatype CSetting =
    CSettingBool string bool
  | CSettingInt string "32 word"
  | CSettingString string string
  | CSettingOther string

fun GetId :: "CSetting \<Rightarrow> string" where
  "GetId (CSettingBool sid v) = sid"
| "GetId (CSettingInt sid v) = sid"
| "GetId (CSettingString sid v) = sid"
| "GetId (CSettingOther sid) = sid"

fun GetType :: "CSetting \<Rightarrow> SettingType" where
  "GetType (CSettingBool sid v) = Boolean"
| "GetType (CSettingInt sid v) = Integer"
| "GetType (CSettingString sid v) = String"
| "GetType (CSettingOther sid) = OtherType"

fun Clone :: "CSetting \<Rightarrow> string \<Rightarrow> CSetting" where
  "Clone (CSettingBool sid v) newId = CSettingBool newId v"
| "Clone (CSettingInt sid v) newId = CSettingInt newId v"
| "Clone (CSettingString sid v) newId = CSettingString newId v"
| "Clone (CSettingOther sid) newId = CSettingOther newId"

text \<open>
  \<^verbatim>\<open>std::dynamic_pointer_cast<const CSettingBool>(p)\<close> followed by
  \<^verbatim>\<open>GetValue()\<close>: the cast gives a null pointer for an object of another class.
\<close>

fun cast_CSettingBool :: "CSetting \<Rightarrow> bool option" where
  "cast_CSettingBool (CSettingBool sid v) = Some v"
| "cast_CSettingBool _ = None"

fun cast_CSettingInt :: "CSetting \<Rightarrow> 32 word option" where
  "cast_CSettingInt (CSettingInt sid v) = Some v"
| "cast_CSettingInt _ = None"

fun cast_CSettingString :: "CSetting \<Rightarrow> string option" where
  "cast_CSettingString (CSettingString sid v) = Some v"
| "cast_CSettingString _ = None"

subsection \<open>The containers\<close>

text \<open>
  \<^verbatim>\<open>std::map<std::string, SettingPtr>\<close> is the list of its entries and
  \<^verbatim>\<open>std::set<std::string>\<close> the list of its elements, both in the order of
  iteration, which is ascending in the key (strings compare lexicographically, byte by
  byte). \<^verbatim>\<open>insert\<close> leaves an element that is already there as it is;
  \<^verbatim>\<open>m[k] = v\<close> overwrites.
\<close>

type_synonym SettingMap = "(string \<times> CSetting) list"

definition map_find :: "SettingMap \<Rightarrow> string \<Rightarrow> CSetting option" where
  "map_find m k = map_of m k"

fun map_insert :: "string \<Rightarrow> CSetting \<Rightarrow> SettingMap \<Rightarrow> SettingMap" where
  "map_insert k v [] = [(k, v)]"
| "map_insert k v ((k', v') # m) =
     (if k < k' then (k, v) # (k', v') # m
      else if k = k' then (k', v') # m
      else (k', v') # map_insert k v m)"

fun map_assign :: "string \<Rightarrow> CSetting \<Rightarrow> SettingMap \<Rightarrow> SettingMap" where
  "map_assign k v [] = [(k, v)]"
| "map_assign k v ((k', v') # m) =
     (if k < k' then (k, v) # (k', v') # m
      else if k = k' then (k', v) # m
      else (k', v') # map_assign k v m)"

fun set_insert :: "string \<Rightarrow> string list \<Rightarrow> string list" where
  "set_insert k [] = [k]"
| "set_insert k (k' # s) =
     (if k < k' then k # k' # s
      else if k = k' then k' # s
      else k' # set_insert k s)"

definition keys :: "SettingMap \<Rightarrow> string set" where
  "keys m = fst ` set m"

subsection \<open>The log\<close>

text \<open>
  \<^verbatim>\<open>CLog::LogF(LOGERROR, ...)\<close> appends a line to the log. Every function below
  that logs returns the lines it wrote, in order, next to its result. The name enters
  the line as \<^verbatim>\<open>settingName.c_str()\<close> under \<^verbatim>\<open>%s\<close>, which ends at the first
  zero byte.
\<close>

type_synonym Log = "string list"

definition c_str :: "string \<Rightarrow> string" where
  "c_str s = takeWhile (\<lambda>c. c \<noteq> CHR 0x00) s"

definition quoted :: "string \<Rightarrow> string" where
  "quoted s = [CHR 0x27] @ s @ [CHR 0x27]"

definition UnknownSetting :: "string \<Rightarrow> string" where
  "UnknownSetting settingName = ''Unknown PVR setting '' @ quoted (c_str settingName)"

definition NotFoundOrWrongType :: "string \<Rightarrow> string" where
  "NotFoundOrWrongType settingName =
     ''PVR setting '' @ quoted (c_str settingName) @ '' not found or wrong type given''"

subsection \<open>Initialisation and the callbacks\<close>

text \<open>
  \<^verbatim>\<open>CServiceBroker::GetSettings().GetSetting(name)\<close> is the parameter
  \<open>GetSetting\<close>: the registry as it is during the call, with \<open>None\<close> for the null
  pointer.
\<close>

type_synonym Registry = "string \<Rightarrow> CSetting option"

fun Init :: "Registry \<Rightarrow> string list \<Rightarrow> SettingMap \<times> Log \<Rightarrow> SettingMap \<times> Log" where
  "Init GetSetting [] (m_settings, lines) = (m_settings, lines)"
| "Init GetSetting (settingName # settingNames) (m_settings, lines) =
     (case GetSetting settingName of
        None \<Rightarrow>
          Init GetSetting settingNames (m_settings, lines @ [UnknownSetting settingName])
      | Some setting \<Rightarrow>
          Init GetSetting settingNames
            (map_insert settingName (Clone setting settingName) m_settings, lines))"

text \<open>
  The constructor runs \<^verbatim>\<open>Init\<close> on the empty \<^verbatim>\<open>m_settings\<close> of the new object.
  The two registrations that follow subscribe the object to the notifications below;
  they change the registry's list of listeners and nothing of this object.
\<close>

definition CPVRSettings :: "Registry \<Rightarrow> string list \<Rightarrow> SettingMap \<times> Log" where
  "CPVRSettings GetSetting settingNames = Init GetSetting settingNames ([], [])"

text \<open>
  \<^verbatim>\<open>OnSettingsLoaded\<close>: the locked block collects the keys of \<^verbatim>\<open>m_settings\<close>
  into a set and clears the map, then \<^verbatim>\<open>Init\<close> runs on the collected names.
\<close>

fun collectNames :: "SettingMap \<Rightarrow> string list \<Rightarrow> string list" where
  "collectNames [] settingNames = settingNames"
| "collectNames (entry # m) settingNames = collectNames m (set_insert (fst entry) settingNames)"

definition OnSettingsLoaded :: "Registry \<Rightarrow> SettingMap \<Rightarrow> SettingMap \<times> Log" where
  "OnSettingsLoaded GetSetting m_settings =
     (let settingNames = collectNames m_settings [] in
      Init GetSetting settingNames ([], []))"

definition OnSettingChanged :: "CSetting option \<Rightarrow> SettingMap \<Rightarrow> SettingMap" where
  "OnSettingChanged setting m_settings =
     (case setting of
        None \<Rightarrow> m_settings
      | Some s \<Rightarrow> map_assign (GetId s) (Clone s (GetId s)) m_settings)"

subsection \<open>The typed accessors\<close>

definition GetBoolValue :: "SettingMap \<Rightarrow> string \<Rightarrow> bool \<times> Log" where
  "GetBoolValue m_settings settingName =
     (case map_find m_settings settingName of
        None \<Rightarrow> (False, [NotFoundOrWrongType settingName])
      | Some s \<Rightarrow>
          if GetType s = Boolean then
            (case cast_CSettingBool s of
               Some v \<Rightarrow> (v, [])
             | None \<Rightarrow> (False, [NotFoundOrWrongType settingName]))
          else (False, [NotFoundOrWrongType settingName]))"

definition GetIntValue :: "SettingMap \<Rightarrow> string \<Rightarrow> 32 word \<times> Log" where
  "GetIntValue m_settings settingName =
     (case map_find m_settings settingName of
        None \<Rightarrow> (- 1, [NotFoundOrWrongType settingName])
      | Some s \<Rightarrow>
          if GetType s = Integer then
            (case cast_CSettingInt s of
               Some v \<Rightarrow> (v, [])
             | None \<Rightarrow> (- 1, [NotFoundOrWrongType settingName]))
          else (- 1, [NotFoundOrWrongType settingName]))"

definition GetStringValue :: "SettingMap \<Rightarrow> string \<Rightarrow> string \<times> Log" where
  "GetStringValue m_settings settingName =
     (case map_find m_settings settingName of
        None \<Rightarrow> ('''', [NotFoundOrWrongType settingName])
      | Some s \<Rightarrow>
          if GetType s = String then
            (case cast_CSettingString s of
               Some v \<Rightarrow> (v, [])
             | None \<Rightarrow> ('''', [NotFoundOrWrongType settingName]))
          else ('''', [NotFoundOrWrongType settingName]))"

subsection \<open>The callbacks of the settings dialog\<close>

text \<open>
  \<^verbatim>\<open>MarginTimeFiller\<close> takes the list and the current value by reference; the
  model returns both. \<open>Get\<close> is \<^verbatim>\<open>g_localizeStrings.Get\<close> and \<open>Format\<close> is
  \<^verbatim>\<open>StringUtils::Format\<close> with one integer argument.
\<close>

definition marginTimeValues :: "32 word list" where
  "marginTimeValues = [0, 1, 3, 5, 10, 15, 20, 30, 60, 90, 120, 180]"

definition marginTimeValuesCount :: nat where
  "marginTimeValuesCount = length marginTimeValues"

function fill :: "(nat \<Rightarrow> string) \<Rightarrow> (string \<Rightarrow> 32 word \<Rightarrow> string) \<Rightarrow> nat \<Rightarrow>
    (string \<times> 32 word) list \<Rightarrow> (string \<times> 32 word) list" where
  "fill Get Format i list =
     (if i < marginTimeValuesCount then
        (let iValue = marginTimeValues ! i in
         fill Get Format (i + 1) (list @ [(Format (Get 14044) iValue, iValue)]))
      else list)"
  by pat_completeness auto
termination
  by (relation "measure (\<lambda>(Get, Format, i, list). marginTimeValuesCount - i)") auto

definition MarginTimeFiller :: "(nat \<Rightarrow> string) \<Rightarrow> (string \<Rightarrow> 32 word \<Rightarrow> string) \<Rightarrow>
    CSetting option \<Rightarrow> (string \<times> 32 word) list \<Rightarrow> 32 word \<Rightarrow> 'd \<Rightarrow>
    (string \<times> 32 word) list \<times> 32 word" where
  "MarginTimeFiller Get Format setting list current data = (fill Get Format 0 [], current)"

text \<open>
  \<^verbatim>\<open>IsSettingVisible\<close>: the two identifiers are the constants
  \<^verbatim>\<open>CSettings::SETTING_PVRMANAGER_USEBACKENDCHANNELNUMBERS\<close> and
  \<^verbatim>\<open>CSettings::SETTING_PVRMANAGER_CLIENTPRIORITIES\<close> of \<^verbatim>\<open>settings/Settings.h\<close>,
  and \<open>EnabledClientAmount\<close> is what the client manager answers during the call, a
  signed 32-bit integer.
\<close>

definition IsSettingVisible :: "string \<Rightarrow> string \<Rightarrow> 32 word \<Rightarrow>
    string \<Rightarrow> string \<Rightarrow> CSetting option \<Rightarrow> 'd \<Rightarrow> bool" where
  "IsSettingVisible SETTING_PVRMANAGER_USEBACKENDCHANNELNUMBERS
      SETTING_PVRMANAGER_CLIENTPRIORITIES EnabledClientAmount condition val setting data =
     (case setting of
        None \<Rightarrow> False
      | Some s \<Rightarrow>
          (let settingId = GetId s in
           if settingId = SETTING_PVRMANAGER_USEBACKENDCHANNELNUMBERS then
             EnabledClientAmount = 1
           else if settingId = SETTING_PVRMANAGER_CLIENTPRIORITIES then
             1 <s EnabledClientAmount
           else True))"

declare fill.simps [simp del]

subsection \<open>The lifetime of a cache\<close>

text \<open>
  After its construction the object is driven by the registry, which calls
  \<^verbatim>\<open>OnSettingsLoaded\<close> (the registry as it is then is the argument of
  \<open>SettingsLoaded\<close>) and \<^verbatim>\<open>OnSettingChanged\<close> with a setting or a null pointer.
  \<open>deliver\<close> runs a sequence of such calls; the log lines are dropped.
\<close>

datatype Notification = SettingsLoaded Registry | SettingChanged "CSetting option"

fun notify :: "Notification \<Rightarrow> SettingMap \<Rightarrow> SettingMap" where
  "notify (SettingsLoaded GetSetting) m_settings = fst (OnSettingsLoaded GetSetting m_settings)"
| "notify (SettingChanged setting) m_settings = OnSettingChanged setting m_settings"

fun deliver :: "Notification list \<Rightarrow> SettingMap \<Rightarrow> SettingMap" where
  "deliver [] m_settings = m_settings"
| "deliver (n # ns) m_settings = deliver ns (notify n m_settings)"

text \<open>\<open>delivers k n\<close>: the notification \<open>n\<close> is a change of the setting \<open>k\<close>.\<close>

fun delivers :: "string \<Rightarrow> Notification \<Rightarrow> bool" where
  "delivers k (SettingChanged (Some s)) = (GetId s = k)"
| "delivers k _ = False"

subsection \<open>Predicates of the specification\<close>

text \<open>
  \<open>in_sync\<close>: every entry of the cache is the clone of the setting that the registry
  returns for its key.
\<close>

definition in_sync :: "Registry \<Rightarrow> SettingMap \<Rightarrow> bool" where
  "in_sync GetSetting m =
     list_all (\<lambda>(k, s). map_option (\<lambda>s'. Clone s' k) (GetSetting k) = Some s) m"

text \<open>
  A declared kind for every identifier, \<open>kindOf\<close>: the cache respects it when every
  entry has the kind of its key, the registry when every lookup returns a setting of
  the kind of the name looked up, a notification when it carries such a registry or a
  setting of the kind of its own identifier.
\<close>

definition kinds_ok :: "(string \<Rightarrow> SettingType) \<Rightarrow> SettingMap \<Rightarrow> bool" where
  "kinds_ok kindOf m = list_all (\<lambda>(k, s). GetType s = kindOf k) m"

definition registry_typed :: "(string \<Rightarrow> SettingType) \<Rightarrow> Registry \<Rightarrow> bool" where
  "registry_typed kindOf GetSetting =
     (\<forall>n s. GetSetting n = Some s \<longrightarrow> GetType s = kindOf n)"

fun notification_typed :: "(string \<Rightarrow> SettingType) \<Rightarrow> Notification \<Rightarrow> bool" where
  "notification_typed kindOf (SettingsLoaded GetSetting) = registry_typed kindOf GetSetting"
| "notification_typed kindOf (SettingChanged None) = True"
| "notification_typed kindOf (SettingChanged (Some s)) = (GetType s = kindOf (GetId s))"

text \<open>
  \<open>agrees GetSetting n\<close>: the notification \<open>n\<close> is one that the registry \<open>GetSetting\<close>
  sends while it stays as it is: a reload from this registry, or a change of a setting
  that the registry holds under its identifier with the same content (or of none).
\<close>

fun agrees :: "Registry \<Rightarrow> Notification \<Rightarrow> bool" where
  "agrees GetSetting (SettingsLoaded GetSetting') = (GetSetting' = GetSetting)"
| "agrees GetSetting (SettingChanged None) = True"
| "agrees GetSetting (SettingChanged (Some s)) =
     (case GetSetting (GetId s) of
        None \<Rightarrow> False
      | Some s' \<Rightarrow> Clone s' (GetId s) = Clone s (GetId s))"

text \<open>
  \<open>keeps_requested names n\<close>: the notification \<open>n\<close> is a reload from a registry that
  knows every identifier of \<open>names\<close>, or a change of one of these identifiers (or of
  none).
\<close>

fun keeps_requested :: "string list \<Rightarrow> Notification \<Rightarrow> bool" where
  "keeps_requested names (SettingsLoaded GetSetting) = list_all (\<lambda>n. GetSetting n \<noteq> None) names"
| "keeps_requested names (SettingChanged None) = True"
| "keeps_requested names (SettingChanged (Some s)) = (GetId s \<in> set names)"

subsection \<open>Sample data\<close>

definition registry_ex :: Registry where
  "registry_ex = [''a'' \<mapsto> CSettingBool ''a'' True, ''b'' \<mapsto> CSettingInt ''b'' 30,
     ''c'' \<mapsto> CSettingString ''c'' ''x'']"

definition kindOf_ex :: "string \<Rightarrow> SettingType" where
  "kindOf_ex n = (if n = ''a'' then Boolean else if n = ''b'' then Integer else String)"

definition cache_ex :: SettingMap where
  "cache_ex = [(''a'', CSettingBool ''a'' True), (''b'', CSettingInt ''b'' 30),
     (''c'', CSettingString ''c'' ''x'')]"

definition registry_later :: Registry where
  "registry_later = [''a'' \<mapsto> CSettingBool ''a'' False, ''z'' \<mapsto> CSettingInt ''z'' 1]"

section \<open>Properties\<close>

subsection \<open>Settings and containers\<close>

lemma GetType_Boolean_iff: "GetType s = Boolean \<longleftrightarrow> (\<exists>sid v. s = CSettingBool sid v)"
  by (cases s) simp_all

lemma GetType_Integer_iff: "GetType s = Integer \<longleftrightarrow> (\<exists>sid v. s = CSettingInt sid v)"
  by (cases s) simp_all

lemma GetType_String_iff: "GetType s = String \<longleftrightarrow> (\<exists>sid v. s = CSettingString sid v)"
  by (cases s) simp_all

lemma GetBoolValue_hit:
  "map_find m n = Some (CSettingBool sid v) \<Longrightarrow> GetBoolValue m n = (v, [])"
  by (simp add: GetBoolValue_def)

lemma GetBoolValue_miss:
  "map_find m n = None \<or> (\<exists>s. map_find m n = Some s \<and> GetType s \<noteq> Boolean) \<Longrightarrow>
   GetBoolValue m n = (False, [NotFoundOrWrongType n])"
  by (auto simp: GetBoolValue_def)

lemma GetIntValue_hit:
  "map_find m n = Some (CSettingInt sid v) \<Longrightarrow> GetIntValue m n = (v, [])"
  by (simp add: GetIntValue_def)

lemma GetIntValue_miss:
  "map_find m n = None \<or> (\<exists>s. map_find m n = Some s \<and> GetType s \<noteq> Integer) \<Longrightarrow>
   GetIntValue m n = (- 1, [NotFoundOrWrongType n])"
  by (auto simp: GetIntValue_def)

lemma GetStringValue_hit:
  "map_find m n = Some (CSettingString sid v) \<Longrightarrow> GetStringValue m n = (v, [])"
  by (simp add: GetStringValue_def)

lemma GetStringValue_miss:
  "map_find m n = None \<or> (\<exists>s. map_find m n = Some s \<and> GetType s \<noteq> String) \<Longrightarrow>
   GetStringValue m n = ('''', [NotFoundOrWrongType n])"
  by (auto simp: GetStringValue_def)

lemma map_of_map_assign: "map_of (map_assign k v m) = (map_of m)(k \<mapsto> v)"
  by (induction m) (auto simp: fun_upd_twist)

lemma keys_dom: "keys m = dom (map_of m)"
  by (simp add: keys_def dom_map_of_conv_image_fst)

lemma keys_map_assign: "keys (map_assign k v m) = insert k (keys m)"
  by (simp add: keys_dom map_of_map_assign)

lemma Clone_same: "Clone s (GetId s) = s"
  by (cases s) simp_all

lemma GetType_Clone: "GetType (Clone s n) = GetType s"
  by (cases s) simp_all

lemma GetId_Clone: "GetId (Clone s n) = n"
  by (cases s) simp_all

lemma fill_drop:
  "fill Get Format i list =
     list @ map (\<lambda>v. (Format (Get 14044) v, v)) (drop i marginTimeValues)"
proof (induction Get Format i list rule: fill.induct)
  case (1 Get Format i list)
  show ?case
  proof (cases "i < marginTimeValuesCount")
    case True
    then have "drop i marginTimeValues = marginTimeValues ! i # drop (Suc i) marginTimeValues"
      by (simp add: marginTimeValuesCount_def Cons_nth_drop_Suc)
    with True "1" show ?thesis
      by (subst fill.simps) (simp add: Let_def)
  next
    case False
    then show ?thesis
      by (subst fill.simps) (simp add: marginTimeValuesCount_def)
  qed
qed

lemma keys_Cons: "keys ((k, v) # m) = insert k (keys m)"
  by (simp add: keys_def)

lemma keys_Nil: "keys [] = {}"
  by (simp add: keys_def)

lemma keys_map_insert: "keys (map_insert k v m) = insert k (keys m)"
  by (induction m) (auto simp: keys_Cons keys_Nil split: if_splits)

lemma sorted_map_insert:
  "sorted_wrt (<) (map fst m) \<Longrightarrow> sorted_wrt (<) (map fst (map_insert k v m))"
proof (induction m)
  case Nil
  then show ?case by simp
next
  case (Cons e m)
  obtain k' v' where e: "e = (k', v')" by (cases e)
  have ks: "fst ` set (map_insert k v m) = insert k (fst ` set m)"
    using keys_map_insert [of k v m] by (simp add: keys_def)
  from Cons e ks show ?case
    by (auto simp: not_less)
qed

lemma map_of_map_insert:
  "sorted_wrt (<) (map fst m) \<Longrightarrow>
   map_of (map_insert k v m) =
     (case map_of m k of None \<Rightarrow> (map_of m)(k \<mapsto> v) | Some old \<Rightarrow> map_of m)"
proof (induction m)
  case Nil
  then show ?case by simp
next
  case (Cons e m)
  obtain k' v' where e: "e = (k', v')" by (cases e)
  show ?case
  proof (cases "k < k'")
    case True
    with Cons.prems e have "map_of (e # m) k = None"
      by (auto simp: map_of_eq_None_iff)
    with True e show ?thesis by simp
  next
    case False
    show ?thesis
    proof (cases "k = k'")
      case True
      with e show ?thesis by simp
    next
      case ne: False
      from Cons e have IH: "map_of (map_insert k v m) =
        (case map_of m k of None \<Rightarrow> (map_of m)(k \<mapsto> v) | Some old \<Rightarrow> map_of m)"
        by simp
      from False ne e IH show ?thesis
        by (auto simp: fun_upd_twist split: option.splits)
    qed
  qed
qed

lemma Init_sorted:
  "sorted_wrt (<) (map fst m) \<Longrightarrow>
   sorted_wrt (<) (map fst (fst (Init GetSetting names (m, lines))))"
  by (induction names arbitrary: m lines) (auto simp: sorted_map_insert split: option.splits)

lemma Init_map_of:
  "sorted_wrt (<) (map fst m) \<Longrightarrow>
   map_of (fst (Init GetSetting names (m, lines))) k =
     (case map_of m k of
        Some old \<Rightarrow> Some old
      | None \<Rightarrow>
          if k \<in> set names then map_option (\<lambda>s. Clone s k) (GetSetting k) else None)"
proof (induction names arbitrary: m lines)
  case Nil
  then show ?case by (simp split: option.splits)
next
  case (Cons n names)
  show ?case
  proof (cases "GetSetting n")
    case None
    with Cons show ?thesis by (auto split: option.splits)
  next
    case (Some s)
    let ?m = "map_insert n (Clone s n) m"
    have "sorted_wrt (<) (map fst ?m)"
      using Cons.prems by (rule sorted_map_insert)
    from Cons.IH [OF this] Some show ?thesis
      by (auto simp: map_of_map_insert [OF Cons.prems] split: option.splits)
  qed
qed

lemma Init_log:
  "snd (Init GetSetting names (m, lines)) =
     lines @ map UnknownSetting (filter (\<lambda>n. GetSetting n = None) names)"
  by (induction names arbitrary: m lines) (auto split: option.splits)

lemma set_set_insert: "set (set_insert k s) = insert k (set s)"
  by (induction s) auto

lemma set_collectNames: "set (collectNames m names) = keys m \<union> set names"
  by (induction m arbitrary: names) (auto simp: keys_Cons keys_Nil set_set_insert)

lemma map_find_CPVRSettings:
  "map_find (fst (CPVRSettings GetSetting names)) k =
     (if k \<in> set names then map_option (\<lambda>s. Clone s k) (GetSetting k) else None)"
  by (simp add: CPVRSettings_def map_find_def Init_map_of)

lemma map_find_OnSettingsLoaded:
  "map_find (fst (OnSettingsLoaded GetSetting m)) k =
     (if k \<in> keys m then map_option (\<lambda>s. Clone s k) (GetSetting k) else None)"
  by (simp add: OnSettingsLoaded_def map_find_def Init_map_of set_collectNames)

subsection \<open>Keys, kinds and synchrony\<close>

lemma keys_CPVRSettings:
  "keys (fst (CPVRSettings GetSetting names)) = {n \<in> set names. GetSetting n \<noteq> None}"
  by (auto simp: keys_dom dom_def map_find_CPVRSettings [unfolded map_find_def])

lemma keys_OnSettingsLoaded:
  "keys (fst (OnSettingsLoaded GetSetting m)) = {n \<in> keys m. GetSetting n \<noteq> None}"
  by (auto simp: keys_dom dom_def map_find_OnSettingsLoaded [unfolded map_find_def keys_dom])

lemma in_sync_map_of:
  "in_sync GetSetting m \<Longrightarrow> map_of m k = Some s \<Longrightarrow>
   map_option (\<lambda>s'. Clone s' k) (GetSetting k) = Some s"
  by (auto simp: in_sync_def list_all_iff dest!: map_of_SomeD)

lemma sorted_CPVRSettings: "sorted_wrt (<) (map fst (fst (CPVRSettings GetSetting names)))"
  by (simp add: CPVRSettings_def Init_sorted)

lemma sorted_OnSettingsLoaded: "sorted_wrt (<) (map fst (fst (OnSettingsLoaded GetSetting m)))"
  by (simp add: OnSettingsLoaded_def Init_sorted)

lemma in_sync_iff:
  "in_sync GetSetting m \<longleftrightarrow>
     (\<forall>(k, s) \<in> set m. map_option (\<lambda>s'. Clone s' k) (GetSetting k) = Some s)"
  by (simp add: in_sync_def list_all_iff)

lemma entry_map_of_sorted:
  fixes m :: SettingMap
  shows "sorted_wrt (<) (map fst m) \<Longrightarrow> (k, s) \<in> set m \<Longrightarrow> map_of m k = Some s"
  by (rule map_of_is_SomeI) (simp_all add: strict_sorted_iff)


lemma keys_OnSettingChanged:
  "keys (OnSettingChanged setting m) =
     (case setting of None \<Rightarrow> keys m | Some s \<Rightarrow> insert (GetId s) (keys m))"
  by (simp add: OnSettingChanged_def keys_map_assign split: option.splits)

lemma keys_notify_absent:
  "k \<notin> keys m \<Longrightarrow> \<not> delivers k n \<Longrightarrow> k \<notin> keys (notify n m)"
proof (cases n)
  case (SettingsLoaded GetSetting)
  assume "k \<notin> keys m"
  with SettingsLoaded show ?thesis
    by (simp add: keys_OnSettingsLoaded)
next
  case (SettingChanged setting)
  assume "k \<notin> keys m" "\<not> delivers k n"
  with SettingChanged show ?thesis
    by (cases setting) (auto simp: keys_OnSettingChanged)
qed

lemma keys_deliver_absent:
  "k \<notin> keys m \<Longrightarrow> \<not> list_ex (delivers k) ns \<Longrightarrow> k \<notin> keys (deliver ns m)"
  by (induction ns arbitrary: m) (simp_all add: keys_notify_absent)

lemma kinds_ok_map_insert:
  "kinds_ok kindOf m \<Longrightarrow> GetType v = kindOf k \<Longrightarrow> kinds_ok kindOf (map_insert k v m)"
  by (induction m) (auto simp: kinds_ok_def)

lemma kinds_ok_map_assign:
  "kinds_ok kindOf m \<Longrightarrow> GetType v = kindOf k \<Longrightarrow> kinds_ok kindOf (map_assign k v m)"
  by (induction m) (auto simp: kinds_ok_def)

lemma kinds_ok_Init:
  "registry_typed kindOf GetSetting \<Longrightarrow> kinds_ok kindOf m \<Longrightarrow>
   kinds_ok kindOf (fst (Init GetSetting names (m, lines)))"
proof (induction names arbitrary: m lines)
  case Nil
  then show ?case by simp
next
  case (Cons n names)
  show ?case
  proof (cases "GetSetting n")
    case None
    with Cons show ?thesis by simp
  next
    case (Some s)
    with Cons.prems have "GetType (Clone s n) = kindOf n"
      by (simp add: registry_typed_def GetType_Clone)
    with Cons.prems have "kinds_ok kindOf (map_insert n (Clone s n) m)"
      by (simp add: kinds_ok_map_insert)
    with Cons.IH Cons.prems Some show ?thesis by simp
  qed
qed

lemma kinds_ok_Nil: "kinds_ok kindOf []"
  by (simp add: kinds_ok_def)

lemma kinds_ok_CPVRSettings:
  "registry_typed kindOf GetSetting \<Longrightarrow> kinds_ok kindOf (fst (CPVRSettings GetSetting names))"
  by (simp add: CPVRSettings_def kinds_ok_Init kinds_ok_Nil)

lemma kinds_ok_OnSettingsLoaded:
  "registry_typed kindOf GetSetting \<Longrightarrow> kinds_ok kindOf (fst (OnSettingsLoaded GetSetting m))"
  by (simp add: OnSettingsLoaded_def kinds_ok_Init kinds_ok_Nil)

lemma kinds_ok_OnSettingChanged:
  "notification_typed kindOf (SettingChanged setting) \<Longrightarrow> kinds_ok kindOf m \<Longrightarrow>
   kinds_ok kindOf (OnSettingChanged setting m)"
  by (cases setting) (simp_all add: OnSettingChanged_def kinds_ok_map_assign GetType_Clone)

lemma kinds_ok_notify:
  "notification_typed kindOf n \<Longrightarrow> kinds_ok kindOf m \<Longrightarrow> kinds_ok kindOf (notify n m)"
  by (cases n) (simp_all add: kinds_ok_OnSettingsLoaded kinds_ok_OnSettingChanged)

lemma kinds_ok_deliver:
  "list_all (notification_typed kindOf) ns \<Longrightarrow> kinds_ok kindOf m \<Longrightarrow>
   kinds_ok kindOf (deliver ns m)"
  by (induction ns arbitrary: m) (simp_all add: kinds_ok_notify)

lemma in_sync_sorted:
  "sorted_wrt (<) (map fst m) \<Longrightarrow>
   \<forall>k s. map_of m k = Some s \<longrightarrow> map_option (\<lambda>s'. Clone s' k) (GetSetting k) = Some s \<Longrightarrow>
   in_sync GetSetting m"
  by (auto simp: in_sync_iff dest: entry_map_of_sorted)

lemma in_sync_CPVRSettings: "in_sync GetSetting (fst (CPVRSettings GetSetting names))"
  by (rule in_sync_sorted [OF sorted_CPVRSettings])
    (auto simp: map_find_CPVRSettings [unfolded map_find_def] split: if_splits)

lemma in_sync_OnSettingsLoaded: "in_sync GetSetting (fst (OnSettingsLoaded GetSetting m))"
  by (rule in_sync_sorted [OF sorted_OnSettingsLoaded])
    (auto simp: map_find_OnSettingsLoaded [unfolded map_find_def] split: if_splits)

lemma reload_in_sync_map_find:
  assumes "in_sync GetSetting m"
  shows "map_find (fst (OnSettingsLoaded GetSetting m)) k = map_find m k"
proof (cases "map_of m k")
  case None
  then have "k \<notin> keys m" by (simp add: keys_dom domIff)
  with None show ?thesis by (simp add: map_find_OnSettingsLoaded) (simp add: map_find_def)
next
  case (Some s)
  then have "k \<in> keys m" by (auto simp: keys_dom)
  with Some in_sync_map_of [OF assms Some] show ?thesis
    by (simp add: map_find_OnSettingsLoaded) (simp add: map_find_def)
qed

lemma sorted_alist_eqI:
  fixes m m' :: SettingMap
  assumes "sorted_wrt (<) (map fst m)" "sorted_wrt (<) (map fst m')" "map_of m = map_of m'"
  shows "m = m'"
proof -
  from assms have d: "distinct (map fst m)" "distinct (map fst m')"
    and s: "sorted (map fst m)" "sorted (map fst m')"
    by (simp_all add: strict_sorted_iff)
  from d assms(3) have eq: "set m = set m'"
    by (simp add: map_of_inject_set)
  from d(1) have "inj_on fst (set m)"
    by (simp add: distinct_map)
  with eq have "inj_on fst (set m \<union> set m')" by simp
  from map_sorted_distinct_set_unique [OF this s(1) d(1) s(2) d(2) eq] show ?thesis .
qed

lemma keys_notify_requested:
  "keys m = set names \<Longrightarrow> keeps_requested names n \<Longrightarrow> keys (notify n m) = set names"
proof (cases n)
  case (SettingsLoaded GetSetting)
  assume "keys m = set names" "keeps_requested names n"
  with SettingsLoaded show ?thesis
    by (auto simp: keys_OnSettingsLoaded list_all_iff)
next
  case (SettingChanged setting)
  assume "keys m = set names" "keeps_requested names n"
  with SettingChanged show ?thesis
    by (cases setting) (auto simp: keys_OnSettingChanged)
qed

lemma keys_deliver_requested:
  "keys m = set names \<Longrightarrow> list_all (keeps_requested names) ns \<Longrightarrow>
   keys (deliver ns m) = set names"
  by (induction ns arbitrary: m) (simp_all add: keys_notify_requested)

lemma sorted_map_assign:
  "sorted_wrt (<) (map fst m) \<Longrightarrow> sorted_wrt (<) (map fst (map_assign k v m))"
proof (induction m)
  case Nil
  then show ?case by simp
next
  case (Cons e m)
  obtain k' v' where e: "e = (k', v')" by (cases e)
  have ks: "fst ` set (map_assign k v m) = insert k (fst ` set m)"
    using keys_map_assign [of k v m] by (simp add: keys_def)
  from Cons e ks show ?case
    by (auto simp: not_less)
qed

lemma in_sync_map_assign:
  "in_sync GetSetting m \<Longrightarrow> map_option (\<lambda>s'. Clone s' k) (GetSetting k) = Some v \<Longrightarrow>
   in_sync GetSetting (map_assign k v m)"
  by (induction m) (auto simp: in_sync_def)

lemma sorted_notify:
  "sorted_wrt (<) (map fst m) \<Longrightarrow> sorted_wrt (<) (map fst (notify n m))"
proof (cases n)
  case (SettingsLoaded GetSetting)
  then show ?thesis by (simp add: sorted_OnSettingsLoaded)
next
  case (SettingChanged setting)
  assume "sorted_wrt (<) (map fst m)"
  with SettingChanged show ?thesis
    by (cases setting) (simp_all add: OnSettingChanged_def sorted_map_assign)
qed

lemma in_sync_notify:
  "in_sync GetSetting m \<Longrightarrow> agrees GetSetting n \<Longrightarrow> in_sync GetSetting (notify n m)"
proof (cases n)
  case (SettingsLoaded GetSetting')
  assume "agrees GetSetting n"
  with SettingsLoaded show ?thesis by (simp add: in_sync_OnSettingsLoaded)
next
  case (SettingChanged setting)
  assume "in_sync GetSetting m" "agrees GetSetting n"
  with SettingChanged show ?thesis
    by (cases setting)
      (auto simp: OnSettingChanged_def in_sync_map_assign split: option.splits)
qed

lemma reachable_sorted_in_sync:
  "sorted_wrt (<) (map fst m) \<Longrightarrow> in_sync GetSetting m \<Longrightarrow>
   list_all (agrees GetSetting) ns \<Longrightarrow>
   sorted_wrt (<) (map fst (deliver ns m)) \<and> in_sync GetSetting (deliver ns m)"
  by (induction ns arbitrary: m) (simp_all add: sorted_notify in_sync_notify)

lemma reload_in_sync_eq:
  assumes "sorted_wrt (<) (map fst m)" "in_sync GetSetting m"
  shows "fst (OnSettingsLoaded GetSetting m) = m"
proof -
  have "map_of (fst (OnSettingsLoaded GetSetting m)) = map_of m"
    using reload_in_sync_map_find [OF assms(2)] by (auto simp: map_find_def)
  with sorted_OnSettingsLoaded assms(1) show ?thesis
    by (rule sorted_alist_eqI)
qed

subsection \<open>The claims\<close>

text \<open>
  C1. For every identifier, each of \<^verbatim>\<open>GetBoolValue\<close>, \<^verbatim>\<open>GetIntValue\<close> and
  \<^verbatim>\<open>GetStringValue\<close> returns the value of the stored snapshot when the cache has an
  entry for the identifier and the entry has the matching kind, and otherwise (no entry,
  or an entry of another kind) the default of its type: \<open>False\<close>, \<open>-1\<close>, the empty
  string.
\<close>

theorem typed_accessors:
  "(\<forall>s. map_find m n = Some s \<and> GetType s = Boolean \<longrightarrow>
        (\<exists>sid. s = CSettingBool sid (fst (GetBoolValue m n)))) \<and>
   (map_find m n = None \<or> (\<exists>s. map_find m n = Some s \<and> GetType s \<noteq> Boolean) \<longrightarrow>
        fst (GetBoolValue m n) = False) \<and>
   (\<forall>s. map_find m n = Some s \<and> GetType s = Integer \<longrightarrow>
        (\<exists>sid. s = CSettingInt sid (fst (GetIntValue m n)))) \<and>
   (map_find m n = None \<or> (\<exists>s. map_find m n = Some s \<and> GetType s \<noteq> Integer) \<longrightarrow>
        fst (GetIntValue m n) = - 1) \<and>
   (\<forall>s. map_find m n = Some s \<and> GetType s = String \<longrightarrow>
        (\<exists>sid. s = CSettingString sid (fst (GetStringValue m n)))) \<and>
   (map_find m n = None \<or> (\<exists>s. map_find m n = Some s \<and> GetType s \<noteq> String) \<longrightarrow>
        fst (GetStringValue m n) = '''')"
proof (intro conjI allI impI)
  fix s assume "map_find m n = Some s \<and> GetType s = Boolean"
  then show "\<exists>sid. s = CSettingBool sid (fst (GetBoolValue m n))"
    by (auto simp: GetType_Boolean_iff GetBoolValue_hit)
next
  assume "map_find m n = None \<or> (\<exists>s. map_find m n = Some s \<and> GetType s \<noteq> Boolean)"
  then show "fst (GetBoolValue m n) = False"
    by (simp add: GetBoolValue_miss)
next
  fix s assume "map_find m n = Some s \<and> GetType s = Integer"
  then show "\<exists>sid. s = CSettingInt sid (fst (GetIntValue m n))"
    by (auto simp: GetType_Integer_iff GetIntValue_hit)
next
  assume "map_find m n = None \<or> (\<exists>s. map_find m n = Some s \<and> GetType s \<noteq> Integer)"
  then show "fst (GetIntValue m n) = - 1"
    by (simp add: GetIntValue_miss)
next
  fix s assume "map_find m n = Some s \<and> GetType s = String"
  then show "\<exists>sid. s = CSettingString sid (fst (GetStringValue m n))"
    by (auto simp: GetType_String_iff GetStringValue_hit)
next
  assume "map_find m n = None \<or> (\<exists>s. map_find m n = Some s \<and> GetType s \<noteq> String)"
  then show "fst (GetStringValue m n) = ''''"
    by (simp add: GetStringValue_miss)
qed

theorem typed_accessors_witness:
  "map_find cache_ex ''a'' = Some (CSettingBool ''a'' True) \<and>
   map_find cache_ex ''b'' = Some (CSettingInt ''b'' 30) \<and>
   map_find cache_ex ''c'' = Some (CSettingString ''c'' ''x'') \<and>
   map_find cache_ex ''d'' = None \<and>
   fst (GetBoolValue cache_ex ''a'') = True \<and>
   fst (GetBoolValue cache_ex ''b'') = False \<and>
   fst (GetBoolValue cache_ex ''d'') = False \<and>
   fst (GetIntValue cache_ex ''b'') = 30 \<and>
   fst (GetIntValue cache_ex ''c'') = - 1 \<and>
   fst (GetIntValue cache_ex ''d'') = - 1 \<and>
   fst (GetStringValue cache_ex ''c'') = ''x'' \<and>
   fst (GetStringValue cache_ex ''a'') = '''' \<and>
   fst (GetStringValue cache_ex ''d'') = ''''"
proof -
  have a: "map_find cache_ex ''a'' = Some (CSettingBool ''a'' True)"
    and b: "map_find cache_ex ''b'' = Some (CSettingInt ''b'' 30)"
    and c: "map_find cache_ex ''c'' = Some (CSettingString ''c'' ''x'')"
    and d: "map_find cache_ex ''d'' = None"
    by (simp_all add: cache_ex_def map_find_def)
  show ?thesis
    using typed_accessors [of cache_ex "''a''"] typed_accessors [of cache_ex "''b''"]
      typed_accessors [of cache_ex "''c''"] typed_accessors [of cache_ex "''d''"]
    by (simp add: a b c d)
qed

text \<open>
  C2. \<^verbatim>\<open>OnSettingChanged\<close> with a null pointer leaves the map as it is. With a
  setting it makes the entry under the setting's identifier a clone of the setting,
  whether or not the identifier had an entry or was requested at construction, and
  leaves the entry under every other key as it is.
\<close>

theorem OnSettingChanged_frame:
  "OnSettingChanged None m = m \<and>
   map_find (OnSettingChanged (Some s) m) (GetId s) = Some (Clone s (GetId s)) \<and>
   (\<forall>k. k \<noteq> GetId s \<longrightarrow> map_find (OnSettingChanged (Some s) m) k = map_find m k) \<and>
   keys (OnSettingChanged (Some s) m) = insert (GetId s) (keys m) \<and>
   (GetId s \<notin> set names \<longrightarrow>
      map_find (OnSettingChanged (Some s) (fst (CPVRSettings GetSetting names))) (GetId s) =
        Some (Clone s (GetId s)))"
  by (simp add: OnSettingChanged_def map_find_def map_of_map_assign keys_map_assign)

theorem OnSettingChanged_frame_witness:
  "OnSettingChanged None cache_ex = cache_ex \<and>
   ''a'' \<noteq> GetId (CSettingInt ''b'' 5) \<and>
   GetId (CSettingInt ''q'' 5) \<notin> set [''a'', ''b''] \<and>
   map_find (OnSettingChanged (Some (CSettingInt ''b'' 5)) cache_ex) ''b'' =
     Some (CSettingInt ''b'' 5) \<and>
   map_find (OnSettingChanged (Some (CSettingInt ''b'' 5)) cache_ex) ''a'' =
     Some (CSettingBool ''a'' True) \<and>
   map_find (OnSettingChanged (Some (CSettingInt ''q'' 5))
       (fst (CPVRSettings registry_ex [''a'', ''b'']))) ''q'' = Some (CSettingInt ''q'' 5)"
  using OnSettingChanged_frame [of cache_ex "CSettingInt ''b'' 5" "[]" registry_ex]
    OnSettingChanged_frame [of cache_ex "CSettingInt ''q'' 5" "[''a'', ''b'']" registry_ex]
  by (simp add: cache_ex_def map_find_def)

text \<open>
  C3. As long as the registry is not mutated, \<^verbatim>\<open>OnSettingsLoaded\<close> produces the
  mapping that existed immediately before it: in every cache state reached from the
  construction by notifications of the unchanged registry (reloads, changes of settings
  it holds, requested or not, and null pointers), the reload returns the same entries,
  so the same key set and under each key the same snapshot.
\<close>

theorem reload_reproduces:
  "list_all (agrees GetSetting) ns \<longrightarrow>
     fst (OnSettingsLoaded GetSetting (deliver ns (fst (CPVRSettings GetSetting names)))) =
       deliver ns (fst (CPVRSettings GetSetting names)) \<and>
     keys (fst (OnSettingsLoaded GetSetting (deliver ns (fst (CPVRSettings GetSetting names))))) =
       keys (deliver ns (fst (CPVRSettings GetSetting names))) \<and>
     (\<forall>k. map_find
            (fst (OnSettingsLoaded GetSetting (deliver ns (fst (CPVRSettings GetSetting names))))) k =
          map_find (deliver ns (fst (CPVRSettings GetSetting names))) k)"
proof
  assume ns: "list_all (agrees GetSetting) ns"
  let ?m = "deliver ns (fst (CPVRSettings GetSetting names))"
  have "sorted_wrt (<) (map fst ?m) \<and> in_sync GetSetting ?m"
    using sorted_CPVRSettings in_sync_CPVRSettings ns by (rule reachable_sorted_in_sync)
  then have "fst (OnSettingsLoaded GetSetting ?m) = ?m"
    by (simp add: reload_in_sync_eq)
  then show "fst (OnSettingsLoaded GetSetting ?m) = ?m \<and>
     keys (fst (OnSettingsLoaded GetSetting ?m)) = keys ?m \<and>
     (\<forall>k. map_find (fst (OnSettingsLoaded GetSetting ?m)) k = map_find ?m k)"
    by simp
qed

theorem reload_reproduces_witness:
  "list_all (agrees registry_ex)
     [SettingChanged (Some (CSettingString ''c'' ''x'')), SettingChanged None,
      SettingsLoaded registry_ex, SettingChanged (Some (CSettingInt ''b'' 30))] \<and>
   deliver
     [SettingChanged (Some (CSettingString ''c'' ''x'')), SettingChanged None,
      SettingsLoaded registry_ex, SettingChanged (Some (CSettingInt ''b'' 30))]
     (fst (CPVRSettings registry_ex [''a'', ''b''])) = cache_ex \<and>
   fst (OnSettingsLoaded registry_ex cache_ex) = cache_ex"
proof -
  have ns: "list_all (agrees registry_ex)
     [SettingChanged (Some (CSettingString ''c'' ''x'')), SettingChanged None,
      SettingsLoaded registry_ex, SettingChanged (Some (CSettingInt ''b'' 30))]"
    by (simp add: registry_ex_def)
  have m: "deliver
     [SettingChanged (Some (CSettingString ''c'' ''x'')), SettingChanged None,
      SettingsLoaded registry_ex, SettingChanged (Some (CSettingInt ''b'' 30))]
     (fst (CPVRSettings registry_ex [''a'', ''b''])) = cache_ex"
    by (simp add: CPVRSettings_def OnSettingsLoaded_def OnSettingChanged_def registry_ex_def
        cache_ex_def)
  show ?thesis
    using ns m
      reload_reproduces [of registry_ex
        "[SettingChanged (Some (CSettingString ''c'' ''x'')), SettingChanged None,
          SettingsLoaded registry_ex, SettingChanged (Some (CSettingInt ''b'' 30))]"
        "[''a'', ''b'']"]
    by simp
qed

text \<open>
  C4. \<^verbatim>\<open>IsSettingVisible\<close> returns false for a null pointer; for the setting
  "use backend channel numbers" it returns whether exactly one client is enabled; for the
  setting "client priorities" whether more than one is; for every other setting true.
  The two identifiers are different settings.
\<close>

theorem IsSettingVisible_cases:
  assumes "USEBACKENDCHANNELNUMBERS \<noteq> CLIENTPRIORITIES"
  shows "IsSettingVisible USEBACKENDCHANNELNUMBERS CLIENTPRIORITIES n c v None d = False \<and>
    (GetId s = USEBACKENDCHANNELNUMBERS \<longrightarrow>
       IsSettingVisible USEBACKENDCHANNELNUMBERS CLIENTPRIORITIES n c v (Some s) d =
         (n = 1)) \<and>
    (GetId s = CLIENTPRIORITIES \<longrightarrow>
       IsSettingVisible USEBACKENDCHANNELNUMBERS CLIENTPRIORITIES n c v (Some s) d =
         (1 < sint n)) \<and>
    (GetId s \<noteq> USEBACKENDCHANNELNUMBERS \<and> GetId s \<noteq> CLIENTPRIORITIES \<longrightarrow>
       IsSettingVisible USEBACKENDCHANNELNUMBERS CLIENTPRIORITIES n c v (Some s) d = True)"
  using assms by (auto simp: IsSettingVisible_def word_sless_alt)

theorem IsSettingVisible_cases_witness:
  "''pvrmanager.usebackendchannelnumbers'' \<noteq> ''pvrmanager.clientpriorities'' \<and>
   IsSettingVisible ''pvrmanager.usebackendchannelnumbers'' ''pvrmanager.clientpriorities''
     1 ''pvrsettingvisible'' ''true'' None () = False \<and>
   IsSettingVisible ''pvrmanager.usebackendchannelnumbers'' ''pvrmanager.clientpriorities''
     1 ''pvrsettingvisible'' ''true'' (Some (CSettingBool ''pvrmanager.usebackendchannelnumbers'' True)) () = True \<and>
   IsSettingVisible ''pvrmanager.usebackendchannelnumbers'' ''pvrmanager.clientpriorities''
     2 ''pvrsettingvisible'' ''true'' (Some (CSettingBool ''pvrmanager.usebackendchannelnumbers'' True)) () = False \<and>
   IsSettingVisible ''pvrmanager.usebackendchannelnumbers'' ''pvrmanager.clientpriorities''
     2 ''pvrsettingvisible'' ''true'' (Some (CSettingOther ''pvrmanager.clientpriorities'')) () = True \<and>
   IsSettingVisible ''pvrmanager.usebackendchannelnumbers'' ''pvrmanager.clientpriorities''
     1 ''pvrsettingvisible'' ''true'' (Some (CSettingOther ''pvrmanager.clientpriorities'')) () = False \<and>
   IsSettingVisible ''pvrmanager.usebackendchannelnumbers'' ''pvrmanager.clientpriorities''
     0 ''pvrsettingvisible'' ''true'' (Some (CSettingInt ''epg.epgupdate'' 120)) () = True"
proof -
  have ne: "''pvrmanager.usebackendchannelnumbers'' \<noteq> ''pvrmanager.clientpriorities''"
    by simp
  show ?thesis
    using ne
      IsSettingVisible_cases [OF ne, of 1 "''pvrsettingvisible''" "''true''" "()"
        "CSettingBool ''pvrmanager.usebackendchannelnumbers'' True"]
      IsSettingVisible_cases [OF ne, of 2 "''pvrsettingvisible''" "''true''" "()"
        "CSettingBool ''pvrmanager.usebackendchannelnumbers'' True"]
      IsSettingVisible_cases [OF ne, of 2 "''pvrsettingvisible''" "''true''" "()"
        "CSettingOther ''pvrmanager.clientpriorities''"]
      IsSettingVisible_cases [OF ne, of 1 "''pvrsettingvisible''" "''true''" "()"
        "CSettingOther ''pvrmanager.clientpriorities''"]
      IsSettingVisible_cases [OF ne, of 0 "''pvrsettingvisible''" "''true''" "()"
        "CSettingInt ''epg.epgupdate'' 120"]
    by simp
qed

text \<open>
  C5. Whatever the list holds on entry and whatever the other arguments are,
  \<^verbatim>\<open>MarginTimeFiller\<close> leaves in it the twelve pairs for 0, 1, 3, 5, 10, 15, 20, 30,
  60, 90, 120 and 180 minutes, in this order, each with the minutes as its integer and
  string 14044 formatted with the minutes as its label, and does not change the current
  value.
\<close>

theorem MarginTimeFiller_list:
  "MarginTimeFiller Get Format setting list current data =
     (map (\<lambda>minutes. (Format (Get 14044) minutes, minutes))
        [0, 1, 3, 5, 10, 15, 20, 30, 60, 90, 120, 180], current) \<and>
   length (fst (MarginTimeFiller Get Format setting list current data)) = 12 \<and>
   map snd (fst (MarginTimeFiller Get Format setting list current data)) =
     [0, 1, 3, 5, 10, 15, 20, 30, 60, 90, 120, 180] \<and>
   snd (MarginTimeFiller Get Format setting list current data) = current"
  by (simp add: MarginTimeFiller_def fill_drop marginTimeValues_def)

text \<open>
  C6. After construction from any set of identifiers, every identifier whose lookup in
  the registry succeeds has an entry that is the clone of the setting found, and every
  identifier whose lookup fails has no entry and a line in the log. The log holds these
  lines only.
\<close>

theorem construction_entries:
  "(\<forall>n \<in> set names.
      (\<forall>s. GetSetting n = Some s \<longrightarrow>
         map_find (fst (CPVRSettings GetSetting names)) n = Some (Clone s n)) \<and>
      (GetSetting n = None \<longrightarrow>
         map_find (fst (CPVRSettings GetSetting names)) n = None \<and>
         UnknownSetting n \<in> set (snd (CPVRSettings GetSetting names)))) \<and>
   snd (CPVRSettings GetSetting names) =
     map UnknownSetting (filter (\<lambda>n. GetSetting n = None) names)"
proof -
  have lines: "snd (CPVRSettings GetSetting names) =
      map UnknownSetting (filter (\<lambda>n. GetSetting n = None) names)"
    by (simp add: CPVRSettings_def Init_log)
  show ?thesis
    by (simp add: lines) (simp add: map_find_CPVRSettings)
qed

theorem construction_entries_witness:
  "registry_ex ''a'' = Some (CSettingBool ''a'' True) \<and>
   registry_ex ''z'' = None \<and>
   map_find (fst (CPVRSettings registry_ex [''a'', ''b'', ''z''])) ''a'' =
     Some (CSettingBool ''a'' True) \<and>
   map_find (fst (CPVRSettings registry_ex [''a'', ''b'', ''z''])) ''b'' =
     Some (CSettingInt ''b'' 30) \<and>
   map_find (fst (CPVRSettings registry_ex [''a'', ''b'', ''z''])) ''z'' = None \<and>
   UnknownSetting ''z'' \<in> set (snd (CPVRSettings registry_ex [''a'', ''b'', ''z'']))"
  using construction_entries [of "[''a'', ''b'', ''z'']" registry_ex]
  by (simp add: registry_ex_def)

text \<open>
  C7 as stated fails: the reload looks up the keys of the map, not the identifiers
  requested at construction. Constructed for \<open>a\<close> and \<open>z\<close> over a registry without
  \<open>z\<close>, the cache reloads \<open>a\<close> alone; after a notification for \<open>q\<close> it reloads \<open>a\<close>
  and \<open>q\<close>.
\<close>

theorem reload_names_counterexample:
  "set [''a'', ''z''] \<noteq> set (collectNames (fst (CPVRSettings registry_ex [''a'', ''z''])) []) \<and>
   collectNames (fst (CPVRSettings registry_ex [''a'', ''z''])) [] = [''a''] \<and>
   collectNames (OnSettingChanged (Some (CSettingInt ''q'' 5))
       (fst (CPVRSettings registry_ex [''a'', ''z'']))) [] = [''a'', ''q'']"
  by (simp add: CPVRSettings_def OnSettingChanged_def registry_ex_def)

text \<open>
  C7, amended. \<^verbatim>\<open>OnSettingsLoaded\<close> clears the map and runs \<^verbatim>\<open>Init\<close> on the
  identifiers that were its keys: the set of identifiers looked up is the set of keys of
  the cache before the reload. It is the set requested at construction in every state
  reached while every lookup of a requested identifier, at construction and in the
  reloads, has succeeded and every change notified was of a requested identifier.
\<close>

theorem reload_names_are_keys:
  "OnSettingsLoaded GetSetting m = Init GetSetting (collectNames m []) ([], []) \<and>
   set (collectNames m []) = keys m \<and>
   (list_all (\<lambda>n. GetSetting n \<noteq> None) names \<longrightarrow> list_all (keeps_requested names) ns \<longrightarrow>
      set (collectNames (deliver ns (fst (CPVRSettings GetSetting names))) []) = set names)"
proof (intro conjI impI)
  show "OnSettingsLoaded GetSetting m = Init GetSetting (collectNames m []) ([], [])"
    by (simp add: OnSettingsLoaded_def)
next
  show "set (collectNames m []) = keys m"
    by (simp add: set_collectNames)
next
  assume found: "list_all (\<lambda>n. GetSetting n \<noteq> None) names"
    and ns: "list_all (keeps_requested names) ns"
  from found have "keys (fst (CPVRSettings GetSetting names)) = set names"
    by (auto simp: keys_CPVRSettings list_all_iff)
  from this ns have "keys (deliver ns (fst (CPVRSettings GetSetting names))) = set names"
    by (rule keys_deliver_requested)
  then show "set (collectNames (deliver ns (fst (CPVRSettings GetSetting names))) []) = set names"
    by (simp add: set_collectNames)
qed

theorem reload_names_are_keys_witness:
  "list_all (\<lambda>n. registry_ex n \<noteq> None) [''a'', ''b''] \<and>
   list_all (keeps_requested [''a'', ''b''])
     [SettingChanged (Some (CSettingInt ''b'' 5)), SettingsLoaded registry_ex] \<and>
   set (collectNames cache_ex []) = {''a'', ''b'', ''c''} \<and>
   set (collectNames
     (deliver [SettingChanged (Some (CSettingInt ''b'' 5)), SettingsLoaded registry_ex]
        (fst (CPVRSettings registry_ex [''a'', ''b'']))) []) = {''a'', ''b''}"
proof -
  have found: "list_all (\<lambda>n. registry_ex n \<noteq> None) [''a'', ''b'']"
    by (simp add: registry_ex_def)
  have ns: "list_all (keeps_requested [''a'', ''b''])
     [SettingChanged (Some (CSettingInt ''b'' 5)), SettingsLoaded registry_ex]"
    by (simp add: registry_ex_def)
  show ?thesis
    using found ns
      reload_names_are_keys [of registry_ex cache_ex "[''a'', ''b'']"
        "[SettingChanged (Some (CSettingInt ''b'' 5)), SettingsLoaded registry_ex]"]
    by (simp add: cache_ex_def keys_def)
qed

text \<open>
  C8. Let every identifier have a declared kind, and let the registry return for a name
  only settings of the kind of this name and notify only of settings of the kind of
  their identifier. Then construction, bulk reload and single change each give a cache
  in which every entry has the declared kind of its key, and so does every sequence of
  notifications after construction.
\<close>

theorem kind_invariant:
  "(registry_typed kindOf GetSetting \<longrightarrow>
      kinds_ok kindOf (fst (CPVRSettings GetSetting names))) \<and>
   (registry_typed kindOf GetSetting \<longrightarrow> kinds_ok kindOf m \<longrightarrow>
      kinds_ok kindOf (fst (OnSettingsLoaded GetSetting m))) \<and>
   (notification_typed kindOf (SettingChanged setting) \<longrightarrow> kinds_ok kindOf m \<longrightarrow>
      kinds_ok kindOf (OnSettingChanged setting m)) \<and>
   (registry_typed kindOf GetSetting \<longrightarrow> list_all (notification_typed kindOf) ns \<longrightarrow>
      kinds_ok kindOf (deliver ns (fst (CPVRSettings GetSetting names))))"
  by (simp add: kinds_ok_CPVRSettings kinds_ok_OnSettingsLoaded kinds_ok_OnSettingChanged
      kinds_ok_deliver)

theorem kind_invariant_witness:
  "registry_typed kindOf_ex registry_ex \<and>
   kinds_ok kindOf_ex cache_ex \<and>
   notification_typed kindOf_ex (SettingChanged (Some (CSettingInt ''b'' 5))) \<and>
   list_all (notification_typed kindOf_ex)
     [SettingChanged (Some (CSettingInt ''b'' 5)), SettingsLoaded registry_ex,
      SettingChanged None, SettingChanged (Some (CSettingString ''q'' ''y''))] \<and>
   kinds_ok kindOf_ex (fst (CPVRSettings registry_ex [''a'', ''b'', ''z''])) \<and>
   kinds_ok kindOf_ex (fst (OnSettingsLoaded registry_ex cache_ex)) \<and>
   kinds_ok kindOf_ex (OnSettingChanged (Some (CSettingInt ''b'' 5)) cache_ex) \<and>
   kinds_ok kindOf_ex
     (deliver [SettingChanged (Some (CSettingInt ''b'' 5)), SettingsLoaded registry_ex,
         SettingChanged None, SettingChanged (Some (CSettingString ''q'' ''y''))]
       (fst (CPVRSettings registry_ex [''a'', ''b'', ''z''])))"
proof -
  have typed: "registry_typed kindOf_ex registry_ex"
    by (simp add: registry_typed_def kindOf_ex_def registry_ex_def)
  have ok: "kinds_ok kindOf_ex cache_ex"
    by (simp add: kinds_ok_def kindOf_ex_def cache_ex_def)
  have change: "notification_typed kindOf_ex (SettingChanged (Some (CSettingInt ''b'' 5)))"
    by (simp add: kindOf_ex_def)
  have ns: "list_all (notification_typed kindOf_ex)
     [SettingChanged (Some (CSettingInt ''b'' 5)), SettingsLoaded registry_ex,
      SettingChanged None, SettingChanged (Some (CSettingString ''q'' ''y''))]"
    by (simp add: typed) (simp add: kindOf_ex_def)
  show ?thesis
    using typed ok change ns
      kind_invariant [of kindOf_ex registry_ex "[''a'', ''b'', ''z'']" cache_ex
        "Some (CSettingInt ''b'' 5)"
        "[SettingChanged (Some (CSettingInt ''b'' 5)), SettingsLoaded registry_ex,
          SettingChanged None, SettingChanged (Some (CSettingString ''q'' ''y''))]"]
    by simp
qed

text \<open>
  C9. The result of \<^verbatim>\<open>IsSettingVisible\<close> does not depend on the condition, the value
  and the data: two calls with the same setting and the same number of enabled clients
  return the same.
\<close>

theorem IsSettingVisible_independent:
  "IsSettingVisible USEBACKENDCHANNELNUMBERS CLIENTPRIORITIES n c1 v1 setting d1 =
   IsSettingVisible USEBACKENDCHANNELNUMBERS CLIENTPRIORITIES n c2 v2 setting d2"
  by (simp add: IsSettingVisible_def)

text \<open>
  C10. The keys after \<^verbatim>\<open>OnSettingsLoaded\<close> are among the keys before it. An
  identifier whose lookup failed at construction and that no change notification has
  delivered is not a key after any sequence of notifications, whatever the registries of
  the reloads hold.
\<close>

theorem reload_never_widens:
  "keys (fst (OnSettingsLoaded GetSetting m)) \<subseteq> keys m \<and>
   (GetSetting0 k = None \<longrightarrow> \<not> list_ex (delivers k) ns \<longrightarrow>
      k \<notin> keys (deliver ns (fst (CPVRSettings GetSetting0 names))))"
proof (intro conjI impI)
  show "keys (fst (OnSettingsLoaded GetSetting m)) \<subseteq> keys m"
    by (auto simp: keys_OnSettingsLoaded)
next
  assume "GetSetting0 k = None" and nd: "\<not> list_ex (delivers k) ns"
  then have "k \<notin> keys (fst (CPVRSettings GetSetting0 names))"
    by (simp add: keys_CPVRSettings)
  from this nd show "k \<notin> keys (deliver ns (fst (CPVRSettings GetSetting0 names)))"
    by (rule keys_deliver_absent)
qed

theorem reload_never_widens_witness:
  "registry_ex ''z'' = None \<and>
   registry_later ''z'' = Some (CSettingInt ''z'' 1) \<and>
   \<not> list_ex (delivers ''z'')
       [SettingsLoaded registry_later, SettingChanged (Some (CSettingInt ''b'' 5)),
        SettingsLoaded registry_later] \<and>
   keys (fst (OnSettingsLoaded registry_later cache_ex)) \<subseteq> keys cache_ex \<and>
   ''z'' \<notin> keys (deliver
       [SettingsLoaded registry_later, SettingChanged (Some (CSettingInt ''b'' 5)),
        SettingsLoaded registry_later]
       (fst (CPVRSettings registry_ex [''a'', ''b'', ''z''])))"
  using reload_never_widens [of registry_later cache_ex registry_ex "''z''"
      "[SettingsLoaded registry_later, SettingChanged (Some (CSettingInt ''b'' 5)),
        SettingsLoaded registry_later]" "[''a'', ''b'', ''z'']"]
  by (simp add: registry_ex_def registry_later_def)

end
